theory Spec2Isabelle
  imports Complex_Main
begin

section \<open>Quality runners of vmaf.core.quality_runner\<close>

text \<open>
  Python floats and numpy doubles are modelled as reals: arithmetic is exact, and the
  only values that are not real numbers (nan, inf) are the ones numpy produces when it
  divides by zero, which the model makes explicit as \<open>None\<close>.
\<close>

subsection \<open>Python values, errors, runner classes\<close>

datatype error = AssertionError | KeyError | ValueError | NotImplementedError

datatype pyval = PyNone | PyBool bool | PyNum real | PyStr string

datatype runner =
    PsnrQualityRunner
  | VmafLegacyQualityRunner
  | VmafQualityRunner
  | VmafPhoneQualityRunner
  | VmafossExecQualityRunner
  | SsimQualityRunner
  | MsSsimQualityRunner
  | Adm2QualityRunner
  | VifScale0QualityRunner
  | VifScale1QualityRunner
  | VifScale2QualityRunner
  | VifScale3QualityRunner
  | MotionQualityRunner
  | StrredQualityRunner

fun TYPE_name :: "runner \<Rightarrow> string" where
  "TYPE_name PsnrQualityRunner = ''PSNR''"
| "TYPE_name VmafLegacyQualityRunner = ''VMAF_legacy''"
| "TYPE_name VmafQualityRunner = ''VMAF''"
| "TYPE_name VmafPhoneQualityRunner = ''VMAF_Phone''"
| "TYPE_name VmafossExecQualityRunner = ''VMAFOSSEXEC''"
| "TYPE_name SsimQualityRunner = ''SSIM''"
| "TYPE_name MsSsimQualityRunner = ''MS_SSIM''"
| "TYPE_name Adm2QualityRunner = ''ADM2''"
| "TYPE_name VifScale0QualityRunner = ''VIF_SCALE0''"
| "TYPE_name VifScale1QualityRunner = ''VIF_SCALE1''"
| "TYPE_name VifScale2QualityRunner = ''VIF_SCALE2''"
| "TYPE_name VifScale3QualityRunner = ''VIF_SCALE3''"
| "TYPE_name MotionQualityRunner = ''MOTION''"
| "TYPE_name StrredQualityRunner = ''STRRED''"

definition get_scores_key :: "runner \<Rightarrow> string" where
  "get_scores_key cls = TYPE_name cls @ ''_scores''"

definition get_score_key :: "runner \<Rightarrow> string" where
  "get_score_key cls = TYPE_name cls @ ''_score''"

subsection \<open>numpy primitives\<close>

text \<open>\<open>np.clip(a, lo, hi)\<close> is \<open>np.minimum(hi, np.maximum(a, lo))\<close> on each element.\<close>

definition np_clip :: "real \<Rightarrow> real \<Rightarrow> real \<Rightarrow> real" where
  "np_clip v lo hi = min hi (max v lo)"

text \<open>
  True division of doubles: a zero divisor gives nan or inf (with a RuntimeWarning and
  no exception), which is not a real number.
\<close>

definition np_divide :: "real \<Rightarrow> real \<Rightarrow> real option" where
  "np_divide x d = (if d = 0 then None else Some (x / d))"

subsection \<open>VmafLegacyQualityRunner\<close>

definition post_correction :: "real \<Rightarrow> real \<Rightarrow> real" where
  "post_correction motion score =
     (let score1 =
            (if motion > 12.0
             then (let val = motion;
                       val = (if val > 20.0 then 20 else val)
                   in score * ((val - 12) * 0.015 + 1))
             else score)
      in if score1 > 100.0 then 100.0
         else if score1 < 0.0 then 0.0
         else score1)"

definition rescale :: "real list \<Rightarrow> real \<times> real \<Rightarrow> real option list" where
  "rescale vals lower_upper_bound =
     (case lower_upper_bound of (lower_bound, upper_bound) \<Rightarrow>
        (let vals1 = map (\<lambda>v. np_clip v lower_bound upper_bound) vals
         in map (\<lambda>v. np_divide (v - lower_bound) (upper_bound - lower_bound)) vals1))"

subsection \<open>VmafQualityRunner and VmafPhoneQualityRunner\<close>

text \<open>
  The value of the model's \<open>score_transform\<close> entry: a dictionary in which each of the
  keys \<open>p0\<close>, \<open>p1\<close>, \<open>p2\<close>, \<open>out_lte_in\<close>, \<open>out_gte_in\<close> is present or absent.
  The coefficients are numbers; the two flags are arbitrary Python values, since the
  code compares them with the string \<open>'true'\<close>.
\<close>

record transform_dict =
  p0 :: "real option"
  p1 :: "real option"
  p2 :: "real option"
  out_lte_in :: "pyval option"
  out_gte_in :: "pyval option"

text \<open>
  Modelled from the spec: TrainTestModel (vmaf.core.train_test_model) is not under src/.
  The regression model is an opaque artifact that exposes
  \<open>predict(feature_matrix) -> score_sequence\<close> and the metadata lookup
  \<open>get_appended_info(key)\<close>, which returns the entry or None when the model declares
  none: here the fields \<open>score_transform\<close> and \<open>score_clip\<close>.
\<close>

record 'x model =
  predict :: "'x \<Rightarrow> real list"
  score_transform :: "transform_dict option"
  score_clip :: "(real \<times> real) option"

fun do_transform_score :: "runner \<Rightarrow> (string \<rightharpoonup> pyval) \<Rightarrow> bool" where
  "do_transform_score VmafPhoneQualityRunner kwargs = True"
| "do_transform_score cls kwargs =
     (case kwargs ''enable_transform_score'' of
        None \<Rightarrow> False
      | Some v \<Rightarrow> v = PyBool True)"

definition transform_score :: "'x model \<Rightarrow> real list \<Rightarrow> real list" where
  "transform_score model ys_pred =
     (case score_transform model of
        None \<Rightarrow> ys_pred
      | Some td \<Rightarrow>
          (let y_in = ys_pred;
               y_out = replicate (length ys_pred) 0;
               y_out = (case p0 td of
                          Some c \<Rightarrow> map (\<lambda>out. out + c) y_out
                        | None \<Rightarrow> y_out);
               y_out = (case p1 td of
                          Some c \<Rightarrow> map2 (\<lambda>out y. out + c * y) y_out y_in
                        | None \<Rightarrow> y_out);
               y_out = (case p2 td of
                          Some c \<Rightarrow> map2 (\<lambda>out y. out + c * y * y) y_out y_in
                        | None \<Rightarrow> y_out);
               y_out = (if (case out_lte_in td of None \<Rightarrow> False
                            | Some v \<Rightarrow> v = PyStr ''true'')
                        then map2 min y_out y_in else y_out);
               y_out = (if (case out_gte_in td of None \<Rightarrow> False
                            | Some v \<Rightarrow> v = PyStr ''true'')
                        then map2 max y_out y_in else y_out)
           in y_out))"

definition clip_score :: "'x model \<Rightarrow> real list \<Rightarrow> real list" where
  "clip_score model ys_pred =
     (case score_clip model of
        Some (lb, ub) \<Rightarrow> map (\<lambda>y. np_clip y lb ub) ys_pred
      | None \<Rightarrow> ys_pred)"

definition predict_with_model ::
  "runner \<Rightarrow> 'x model \<Rightarrow> 'x \<Rightarrow> (string \<rightharpoonup> pyval) \<Rightarrow> real list" where
  "predict_with_model cls model xs kwargs =
     (let ys_pred = predict model xs;
          do_transform = do_transform_score cls kwargs;
          ys_pred = (if do_transform then transform_score model ys_pred else ys_pred);
          ys_pred = (if (case kwargs ''disable_clip_score'' of None \<Rightarrow> False
                         | Some v \<Rightarrow> v = PyBool True)
                     then ys_pred
                     else clip_score model ys_pred)
      in ys_pred)"

text \<open>
  \<open>VmafPhoneQualityRunner._assert_args\<close>: the outcome of the inherited validation
  (\<open>Executor._assert_args\<close>, not under src/) is a parameter.
\<close>

definition VmafPhone_assert_args ::
  "error + unit \<Rightarrow> (string \<rightharpoonup> pyval) option \<Rightarrow> error + unit" where
  "VmafPhone_assert_args super_assert_args optional_dict =
     (case super_assert_args of
        Inl e \<Rightarrow> Inl e
      | Inr u \<Rightarrow>
          (case optional_dict of
             None \<Rightarrow> Inr ()
           | Some d \<Rightarrow>
               (case d ''enable_transform_score'' of
                  None \<Rightarrow> Inr ()
                | Some v \<Rightarrow> Inl AssertionError)))"

text \<open>
  Modelled from the spec: the Executor base class (vmaf.core.executor) is not under
  src/. By the spec an unsupported configuration is a "fatal validation error raised
  before any external invocation": the configuration is validated first, and the run is
  attempted only when the validation has passed.
\<close>

definition validate_then_run :: "error + unit \<Rightarrow> (unit \<Rightarrow> error + 'r) \<Rightarrow> error + 'r" where
  "validate_then_run validation run =
     (case validation of Inl e \<Rightarrow> Inl e | Inr u \<Rightarrow> run ())"

subsection \<open>VmafSingleFeatureQualityRunner\<close>

fun FEATURE_NAME :: "runner \<Rightarrow> string option" where
  "FEATURE_NAME Adm2QualityRunner = Some ''adm2''"
| "FEATURE_NAME VifScale0QualityRunner = Some ''vif_scale0''"
| "FEATURE_NAME VifScale1QualityRunner = Some ''vif_scale1''"
| "FEATURE_NAME VifScale2QualityRunner = Some ''vif_scale2''"
| "FEATURE_NAME VifScale3QualityRunner = Some ''vif_scale3''"
| "FEATURE_NAME MotionQualityRunner = Some ''motion''"
| "FEATURE_NAME cls = None"

text \<open>
  Modelled from the spec: \<open>VmafFeatureExtractor.get_scores_key\<close> is in
  vmaf.core.feature_extractor, not under src/. The sub-feature scores field is
  \<open>"{type}_{feature-name}_scores"\<close>, and the extractor's type is \<open>VMAF_feature\<close>, as
  the keys of \<open>FEATURE_RESCALE_DICT\<close> show.
\<close>

definition VmafFeatureExtractor_get_scores_key :: "string \<Rightarrow> string" where
  "VmafFeatureExtractor_get_scores_key atom_feature =
     ''VMAF_feature'' @ ''_'' @ atom_feature @ ''_scores''"

text \<open>
  \<open>_run_on_asset\<close> of the single-feature runners. The result of the feature assembler
  is the parameter \<open>feature_result\<close>; indexing it with a key it does not hold raises
  KeyError. The abstract base class has no \<open>FEATURE_NAME\<close>.
\<close>

definition SingleFeature_run_on_asset ::
  "runner \<Rightarrow> (string \<rightharpoonup> real list) \<Rightarrow> error + (string \<rightharpoonup> real list)" where
  "SingleFeature_run_on_asset cls feature_result =
     (case FEATURE_NAME cls of
        None \<Rightarrow> Inl NotImplementedError
      | Some name \<Rightarrow>
          (case feature_result (VmafFeatureExtractor_get_scores_key name) of
             None \<Rightarrow> Inl KeyError
           | Some scores \<Rightarrow> Inr (Map.empty(get_scores_key cls \<mapsto> scores))))"

subsection \<open>PsnrQualityRunner\<close>

definition is_digit :: "char \<Rightarrow> bool" where
  "is_digit c = (c \<in> set ''0123456789'')"

definition is_value_char :: "char \<Rightarrow> bool" where
  "is_value_char c = (is_digit c \<or> c = CHR ''.'' \<or> c = CHR ''-'')"

fun match_literal :: "string \<Rightarrow> string \<Rightarrow> string option" where
  "match_literal [] s = Some s"
| "match_literal (p # ps) [] = None"
| "match_literal (p # ps) (c # cs) = (if p = c then match_literal ps cs else None)"

text \<open>
  \<open>re.match(r"psnr: ([0-9]+) ([0-9.-]+)", line)\<close>: the pattern is anchored at the start
  of the line only. The first group is the longest run of digits (a shorter one would be
  followed by a digit, not by the space), the second the longest run of digits, dots and
  minus signs; both must be non-empty. The result holds the two groups.
\<close>

definition re_match_psnr :: "string \<Rightarrow> (string \<times> string) option" where
  "re_match_psnr line =
     (case match_literal ''psnr: '' line of
        None \<Rightarrow> None
      | Some rest \<Rightarrow>
          (let g1 = takeWhile is_digit rest;
               rest1 = dropWhile is_digit rest
           in if g1 = [] then None
              else (case match_literal '' '' rest1 of
                      None \<Rightarrow> None
                    | Some rest2 \<Rightarrow>
                        (let g2 = takeWhile is_value_char rest2
                         in if g2 = [] then None else Some (g1, g2)))))"

definition digit_value :: "char \<Rightarrow> nat" where
  "digit_value c = of_char c - 48"

text \<open>\<open>int\<close> on a non-empty string of digits.\<close>

definition py_int :: "string \<Rightarrow> nat" where
  "py_int s = foldl (\<lambda>n c. 10 * n + digit_value c) 0 s"

text \<open>
  \<open>float\<close> on a string of digits, dots and minus signs, the only strings the regular
  expression hands to it: an optional leading minus sign, digits, an optional dot,
  digits, with a digit on at least one side of the dot. Every other such string raises
  ValueError (\<open>None\<close>).
\<close>

definition py_float :: "string \<Rightarrow> real option" where
  "py_float s =
     (let (neg, body) = (case s of
                           [] \<Rightarrow> (False, s)
                         | c # r \<Rightarrow> if c = CHR ''-'' then (True, r) else (False, s));
          ip = takeWhile is_digit body;
          rest = dropWhile is_digit body;
          fp = (case rest of
                  [] \<Rightarrow> []
                | c # r \<Rightarrow> if c = CHR ''.'' then r else rest)
      in if (ip = [] \<and> fp = []) \<or> \<not> list_all is_digit fp then None
         else Some ((if neg then - 1 else 1)
                    * (real (py_int ip) + real (py_int fp) / 10 ^ length fp)))"

text \<open>The loop over the lines of the log, with the list of scores and the counter.\<close>

fun psnr_loop :: "string list \<Rightarrow> real list \<Rightarrow> nat \<Rightarrow> error + real list" where
  "psnr_loop [] psnr_scores counter = Inr psnr_scores"
| "psnr_loop (line # ls) psnr_scores counter =
     (case re_match_psnr line of
        None \<Rightarrow> psnr_loop ls psnr_scores counter
      | Some (g1, g2) \<Rightarrow>
          (let cur_idx = py_int g1
           in if cur_idx \<noteq> counter then Inl AssertionError
              else (case py_float g2 of
                      None \<Rightarrow> Inl ValueError
                    | Some v \<Rightarrow> psnr_loop ls (psnr_scores @ [v]) (counter + 1))))"

definition Psnr_get_quality_scores :: "string list \<Rightarrow> error + (string \<rightharpoonup> real list)" where
  "Psnr_get_quality_scores lines =
     (case psnr_loop lines [] 0 of
        Inl e \<Rightarrow> Inl e
      | Inr psnr_scores \<Rightarrow>
          if length psnr_scores = 0 then Inl AssertionError
          else Inr (Map.empty(get_scores_key PsnrQualityRunner \<mapsto> psnr_scores)))"

text \<open>The lines of a log that the pattern matches, as their two groups, in line order.\<close>

definition matched_lines :: "string list \<Rightarrow> (string \<times> string) list" where
  "matched_lines lines = List.map_filter re_match_psnr lines"

subsection \<open>VmafossExecQualityRunner\<close>

definition FEATURES :: "string list" where
  "FEATURES = [''adm2'', ''adm_scale0'', ''adm_scale1'', ''adm_scale2'', ''adm_scale3'',
               ''motion'', ''vif_scale0'', ''vif_scale1'', ''vif_scale2'',
               ''vif_scale3'', ''vif'', ''psnr'', ''ssim'', ''ms_ssim'', ''motion2'']"

definition get_feature_scores_key :: "runner \<Rightarrow> string \<Rightarrow> string" where
  "get_feature_scores_key cls atom_feature =
     TYPE_name cls @ ''_'' @ atom_feature @ ''_scores''"

text \<open>
  The inner loop over \<open>enumerate(FEATURES)\<close> for one frame. A frame is its attribute
  dictionary. A missing attribute raises KeyError, which the loop catches and passes
  over; a value that \<open>float\<close> rejects raises ValueError, which it does not catch.
  The builtin \<open>float\<close> is the parameter \<open>float_of\<close> (\<open>None\<close> where it raises).
\<close>

fun frame_features ::
  "(string \<Rightarrow> real option) \<Rightarrow> (string \<rightharpoonup> string) \<Rightarrow> (nat \<times> string) list
   \<Rightarrow> real list list \<Rightarrow> error + real list list" where
  "frame_features float_of attrib [] feature_scores = Inr feature_scores"
| "frame_features float_of attrib ((i_feature, feature) # rest) feature_scores =
     (case attrib feature of
        None \<Rightarrow> frame_features float_of attrib rest feature_scores
      | Some s \<Rightarrow>
          (case float_of s of
             None \<Rightarrow> Inl ValueError
           | Some v \<Rightarrow>
               frame_features float_of attrib rest
                 (feature_scores[i_feature := feature_scores ! i_feature @ [v]])))"

text \<open>The loop over the frames, with the list of scores and the lists of feature scores.\<close>

fun frames_loop ::
  "(string \<Rightarrow> real option) \<Rightarrow> (string \<rightharpoonup> string) list \<Rightarrow> real list \<Rightarrow> real list list
   \<Rightarrow> error + (real list \<times> real list list)" where
  "frames_loop float_of [] scores feature_scores = Inr (scores, feature_scores)"
| "frames_loop float_of (frame # rest) scores feature_scores =
     (case frame ''vmaf'' of
        None \<Rightarrow> Inl KeyError
      | Some s \<Rightarrow>
          (case float_of s of
             None \<Rightarrow> Inl ValueError
           | Some v \<Rightarrow>
               (case frame_features float_of frame (enumerate 0 FEATURES) feature_scores of
                  Inl e \<Rightarrow> Inl e
                | Inr feature_scores1 \<Rightarrow>
                    frames_loop float_of rest (scores @ [v]) feature_scores1)))"

text \<open>The final loop that adds the non-empty feature sequences to the result.\<close>

fun add_feature_scores ::
  "(nat \<times> string) list \<Rightarrow> real list list \<Rightarrow> (string \<rightharpoonup> real list)
   \<Rightarrow> (string \<rightharpoonup> real list)" where
  "add_feature_scores [] feature_scores quality_result = quality_result"
| "add_feature_scores ((i_feature, feature) # rest) feature_scores quality_result =
     add_feature_scores rest feature_scores
       (if length (feature_scores ! i_feature) \<noteq> 0
        then quality_result(get_feature_scores_key VmafossExecQualityRunner feature
                              \<mapsto> feature_scores ! i_feature)
        else quality_result)"

text \<open>
  \<open>_get_quality_scores\<close> on the frames that \<open>root.findall('frames/frame')\<close> returns,
  in document order.
\<close>

definition Vmafossexec_get_quality_scores ::
  "(string \<Rightarrow> real option) \<Rightarrow> (string \<rightharpoonup> string) list
   \<Rightarrow> error + (string \<rightharpoonup> real list)" where
  "Vmafossexec_get_quality_scores float_of frames =
     (case frames_loop float_of frames [] (replicate (length FEATURES) []) of
        Inl e \<Rightarrow> Inl e
      | Inr (scores, feature_scores) \<Rightarrow>
          if length scores = 0 then Inl AssertionError
          else Inr (add_feature_scores (enumerate 0 FEATURES) feature_scores
                      (Map.empty(get_scores_key VmafossExecQualityRunner \<mapsto> scores))))"

text \<open>
  The values of one feature over the frames that carry the attribute, in frame order.
\<close>

definition present_values ::
  "(string \<Rightarrow> real option) \<Rightarrow> string \<Rightarrow> (string \<rightharpoonup> string) list \<Rightarrow> real list" where
  "present_values float_of feature frames =
     List.map_filter (\<lambda>frame. case frame feature of None \<Rightarrow> None | Some s \<Rightarrow> float_of s)
       frames"

text \<open>
  The values that one frame contributes to a feature: the value of its attribute, when
  it is there and float accepts it.
\<close>

definition frame_values ::
  "(string \<Rightarrow> real option) \<Rightarrow> (string \<rightharpoonup> string) \<Rightarrow> string \<Rightarrow> real list" where
  "frame_values float_of attrib feature =
     (case attrib feature of
        None \<Rightarrow> []
      | Some s \<Rightarrow> (case float_of s of None \<Rightarrow> [] | Some v \<Rightarrow> [v]))"

section \<open>Properties\<close>

subsection \<open>Legacy post-correction\<close>

lemma clip_0_100_shape:
  "(if x > 100.0 then 100.0 else if x < 0.0 then 0.0 else x) = min 100 (max 0 (x::real))"
  by (simp add: min_def max_def)

lemma correction_factor_shape:
  "(if m > 12.0 then s * (((if m > 20.0 then 20 else m) - 12) * 0.015 + 1) else s)
     = s * (if m \<le> 12 then 1 else 1 + (min m 20 - 12) * 0.015)"
  for m s :: real
  by (cases "m \<le> 12"; cases "m \<le> 20") (simp_all add: min_def)

lemma post_correction_shape:
  "post_correction m s =
     min 100 (max 0 (s * (if m \<le> 12 then 1 else 1 + (min m 20 - 12) * 0.015)))"
  by (simp only: post_correction_def Let_def correction_factor_shape clip_0_100_shape)

text \<open>
  C1. For every motion value m and raw predicted score s, the legacy post-correction
  multiplies s by the factor 1 when m <= 12 and by 1 + (min(m, 20) - 12) * 0.015
  otherwise, and clips the product to [0, 100]; so the returned score always lies in
  [0, 100]. The factor is 1 at m = 10, 1.075 at m = 17 and 1.12 at m = 25.
\<close>

theorem post_correction_spec:
  "post_correction m s =
     min 100 (max 0 (s * (if m \<le> 12 then 1 else 1 + (min m 20 - 12) * 0.015)))
   \<and> 0 \<le> post_correction m s \<and> post_correction m s \<le> 100
   \<and> post_correction 10 s = min 100 (max 0 (s * 1))
   \<and> post_correction 17 s = min 100 (max 0 (s * 1.075))
   \<and> post_correction 25 s = min 100 (max 0 (s * 1.12))"
proof -
  have lo: "0 \<le> post_correction m s"
    unfolding post_correction_shape by simp
  have hi: "post_correction m s \<le> 100"
    unfolding post_correction_shape by simp
  have e10: "post_correction 10 s = min 100 (max 0 (s * 1))"
    unfolding post_correction_shape by simp
  have e17: "post_correction 17 s = min 100 (max 0 (s * 1.075))"
    unfolding post_correction_shape by simp
  have e25: "post_correction 25 s = min 100 (max 0 (s * 1.12))"
    unfolding post_correction_shape by simp
  from post_correction_shape [of m s] lo hi e10 e17 e25 show ?thesis by blast
qed

subsection \<open>Feature rescaling\<close>

lemma rescale_elementwise:
  "lower < upper \<Longrightarrow>
   rescale vals (lower, upper) =
     map (\<lambda>v. Some ((np_clip v lower upper - lower) / (upper - lower))) vals"
  by (simp add: rescale_def np_divide_def Let_def)

lemma np_clip_inside: "lower \<le> v \<Longrightarrow> v \<le> upper \<Longrightarrow> np_clip v lower upper = v"
  by (simp add: np_clip_def)

lemma np_clip_below: "lower \<le> upper \<Longrightarrow> v \<le> lower \<Longrightarrow> np_clip v lower upper = lower"
  by (simp add: np_clip_def)

lemma np_clip_above: "upper \<le> v \<Longrightarrow> np_clip v lower upper = upper"
  by (simp add: np_clip_def)

lemma np_clip_mono: "v \<le> w \<Longrightarrow> np_clip v lower upper \<le> np_clip w lower upper"
  by (auto simp add: np_clip_def min_def max_def)

lemma rescale_equal_bounds:
  "rescale vals (b, b) = replicate (length vals) None"
  by (simp add: rescale_def np_divide_def Let_def comp_def map_replicate_const)

lemma rescale_none_iff:
  "None \<in> set (rescale vals (lower, upper)) \<longleftrightarrow> vals \<noteq> [] \<and> lower = upper"
  by (cases vals) (auto simp add: rescale_def np_divide_def Let_def)

text \<open>
  C4. For every value sequence and bound pair with lower < upper, rescale returns
  elementwise (clip(v, lower, upper) - lower) / (upper - lower). For v inside
  [lower, upper] the rescaled value is (v - lower) / (upper - lower) and lies in [0, 1];
  the rescaled value is non-decreasing in v; every value at or below lower maps to 0 and
  every value at or above upper maps to 1.
\<close>

theorem rescale_spec:
  assumes "lower < upper"
  shows "rescale vals (lower, upper) =
           map (\<lambda>v. Some ((np_clip v lower upper - lower) / (upper - lower))) vals
    \<and> (\<forall>v. lower \<le> v \<and> v \<le> upper \<longrightarrow>
          rescale [v] (lower, upper) = [Some ((v - lower) / (upper - lower))]
          \<and> 0 \<le> (v - lower) / (upper - lower) \<and> (v - lower) / (upper - lower) \<le> 1)
    \<and> (\<forall>v w r1 r2. v \<le> w \<and> rescale [v] (lower, upper) = [Some r1]
          \<and> rescale [w] (lower, upper) = [Some r2] \<longrightarrow> r1 \<le> r2)
    \<and> (\<forall>v. v \<le> lower \<longrightarrow> rescale [v] (lower, upper) = [Some 0])
    \<and> (\<forall>v. upper \<le> v \<longrightarrow> rescale [v] (lower, upper) = [Some 1])"
proof -
  have pos: "0 < upper - lower" using assms by simp
  have inside: "rescale [v] (lower, upper) = [Some ((v - lower) / (upper - lower))]
      \<and> 0 \<le> (v - lower) / (upper - lower) \<and> (v - lower) / (upper - lower) \<le> 1"
    if "lower \<le> v \<and> v \<le> upper" for v
    using that pos by (simp add: rescale_elementwise [OF assms] np_clip_inside)
  have mono: "r1 \<le> r2"
    if "v \<le> w \<and> rescale [v] (lower, upper) = [Some r1]
          \<and> rescale [w] (lower, upper) = [Some r2]" for v w r1 r2
  proof -
    from that have r1: "r1 = (np_clip v lower upper - lower) / (upper - lower)"
      and r2: "r2 = (np_clip w lower upper - lower) / (upper - lower)"
      by (simp_all add: rescale_elementwise [OF assms])
    from that have "np_clip v lower upper \<le> np_clip w lower upper"
      by (simp add: np_clip_mono)
    with pos show ?thesis unfolding r1 r2 by (simp add: divide_right_mono)
  qed
  have below: "rescale [v] (lower, upper) = [Some 0]" if "v \<le> lower" for v
    using that assms by (simp add: rescale_elementwise [OF assms] np_clip_below)
  have above: "rescale [v] (lower, upper) = [Some 1]" if "upper \<le> v" for v
    using that assms by (simp add: rescale_elementwise [OF assms] np_clip_above)
  from rescale_elementwise [OF assms, of vals] inside mono below above
  show ?thesis by blast
qed

theorem rescale_spec_witness:
  "(10::real) < 50 \<and> rescale [5, 30, 60] (10, 50) = [Some 0, Some (1/2), Some 1]"
proof -
  have h: "(10::real) < 50" by simp
  from rescale_spec [OF h, of "[5, 30, 60]"] h show ?thesis
    by (simp add: np_clip_def)
qed

text \<open>
  C10. The rescale operation has no guard on its divisor: for every bound pair with
  lower = upper each division is a division by zero, so no element of the result is a
  number; under lower < upper no division by zero is reached. A division by zero
  happens exactly when the sequence is not empty and lower = upper.
\<close>

theorem rescale_division_by_zero:
  "(lower = upper \<longrightarrow> rescale vals (lower, upper) = replicate (length vals) None)
   \<and> (lower < upper \<longrightarrow> None \<notin> set (rescale vals (lower, upper)))
   \<and> (None \<in> set (rescale vals (lower, upper)) \<longleftrightarrow> vals \<noteq> [] \<and> lower = upper)"
  using rescale_equal_bounds [of vals lower] rescale_none_iff [of vals lower upper]
  by auto

theorem rescale_division_by_zero_witness:
  "rescale [3, 7] (1, 1) = [None, None] \<and> None \<notin> set (rescale [3, 7] (0, 20))"
  using rescale_division_by_zero [of 1 1 "[3, 7]"] rescale_division_by_zero [of 0 20 "[3, 7]"]
  by simp

subsection \<open>Score transform\<close>

lemma map2_same: "map2 f (map g ys) ys = map (\<lambda>y. f (g y) y) ys"
  by (induction ys) simp_all

lemma replicate_as_map: "replicate (length ys) c = map (\<lambda>y. c) ys"
  by (induction ys) simp_all

lemma transform_score_elementwise:
  "score_transform model = Some td \<Longrightarrow>
   transform_score model ys =
     map (\<lambda>y. let out = (case p0 td of None \<Rightarrow> 0 | Some c \<Rightarrow> c)
                        + (case p1 td of None \<Rightarrow> 0 | Some c \<Rightarrow> c) * y
                        + (case p2 td of None \<Rightarrow> 0 | Some c \<Rightarrow> c) * y\<^sup>2;
                    out = (if out_lte_in td = Some (PyStr ''true'') then min out y else out)
                in (if out_gte_in td = Some (PyStr ''true'') then max out y else out)) ys"
  unfolding transform_score_def Let_def replicate_as_map
  by (cases "p0 td"; cases "p1 td"; cases "p2 td"; cases "out_lte_in td"; cases "out_gte_in td")
     (simp_all add: map2_same power2_eq_square mult.assoc o_def)

lemma transform_score_no_spec:
  "score_transform model = None \<Longrightarrow> transform_score model ys = ys"
  by (simp add: transform_score_def)

text \<open>
  C2. If the model declares a transform specification, the transform step computes
  y_out = p0 + p1 * y_in + p2 * y_in^2 elementwise, a missing coefficient counting as 0,
  and then rectifies: with out_lte_in set (the string 'true') y_out is clamped to at
  most y_in, and then with out_gte_in set to at least y_in. If the model declares no
  transform specification, the input sequence is returned unchanged. With p0 = 1,
  p1 = 1, p2 = 0.5 the input 2 gives 5, and 2 when out_lte_in is set as well.
\<close>

theorem transform_score_spec:
  "(score_transform model = None \<longrightarrow> transform_score model ys = ys)
   \<and> (\<forall>td. score_transform model = Some td \<longrightarrow>
         transform_score model ys =
           map (\<lambda>y. let out = (case p0 td of None \<Rightarrow> 0 | Some c \<Rightarrow> c)
                              + (case p1 td of None \<Rightarrow> 0 | Some c \<Rightarrow> c) * y
                              + (case p2 td of None \<Rightarrow> 0 | Some c \<Rightarrow> c) * y\<^sup>2;
                          out = (if out_lte_in td = Some (PyStr ''true'')
                                 then min out y else out)
                      in (if out_gte_in td = Some (PyStr ''true'')
                          then max out y else out)) ys)
   \<and> transform_score
        (model\<lparr>score_transform := Some \<lparr>p0 = Some 1, p1 = Some 1, p2 = Some 0.5,
                   out_lte_in = None, out_gte_in = None\<rparr>\<rparr>) [2] = [5]
   \<and> transform_score
        (model\<lparr>score_transform := Some \<lparr>p0 = Some 1, p1 = Some 1, p2 = Some 0.5,
                   out_lte_in = Some (PyStr ''true''), out_gte_in = None\<rparr>\<rparr>) [2] = [2]"
proof -
  have ex1: "transform_score
        (model\<lparr>score_transform := Some \<lparr>p0 = Some 1, p1 = Some 1, p2 = Some 0.5,
                   out_lte_in = None, out_gte_in = None\<rparr>\<rparr>) [2] = [5]"
    by (simp add: transform_score_elementwise)
  have ex2: "transform_score
        (model\<lparr>score_transform := Some \<lparr>p0 = Some 1, p1 = Some 1, p2 = Some 0.5,
                   out_lte_in = Some (PyStr ''true''), out_gte_in = None\<rparr>\<rparr>) [2] = [2]"
    by (simp add: transform_score_elementwise)
  from transform_score_no_spec [of model ys] transform_score_elementwise [of model _ ys] ex1 ex2
  show ?thesis by blast
qed

theorem transform_score_spec_witness:
  "transform_score
     \<lparr>predict = (\<lambda>x::unit. []),
      score_transform = Some \<lparr>p0 = None, p1 = Some 0.5, p2 = None,
                              out_lte_in = Some (PyStr ''true''), out_gte_in = None\<rparr>,
      score_clip = None\<rparr> [2, -2] = [1, -2]
   \<and> transform_score
     \<lparr>predict = (\<lambda>x::unit. []), score_transform = None, score_clip = None\<rparr> [2, -2] = [2, -2]"
  using transform_score_spec [of "\<lparr>predict = (\<lambda>x::unit. []),
      score_transform = Some \<lparr>p0 = None, p1 = Some 0.5, p2 = None,
                              out_lte_in = Some (PyStr ''true''), out_gte_in = None\<rparr>,
      score_clip = None\<rparr>" "[2, -2]"]
    transform_score_spec [of "\<lparr>predict = (\<lambda>x::unit. []), score_transform = None, score_clip = None\<rparr>" "[2, -2]"]
  by simp

text \<open>
  C9. When the key out_lte_in (respectively out_gte_in) is present with a value other
  than the string 'true', the boolean True included, the transform step applies no lte
  (respectively gte) clamp: it returns what it returns without that key. With p0 = 1,
  p1 = 1, p2 = 0.5 and out_lte_in = True the input 2 gives 5; with out_lte_in = 'true'
  it gives 2.
\<close>

theorem rectification_only_on_string_true:
  "(\<forall>v. out_lte_in td = Some v \<and> v \<noteq> PyStr ''true'' \<longrightarrow>
        transform_score (model\<lparr>score_transform := Some td\<rparr>) ys
        = transform_score (model\<lparr>score_transform := Some (td\<lparr>out_lte_in := None\<rparr>)\<rparr>) ys)
   \<and> (\<forall>v. out_gte_in td = Some v \<and> v \<noteq> PyStr ''true'' \<longrightarrow>
        transform_score (model\<lparr>score_transform := Some td\<rparr>) ys
        = transform_score (model\<lparr>score_transform := Some (td\<lparr>out_gte_in := None\<rparr>)\<rparr>) ys)
   \<and> transform_score
        (model\<lparr>score_transform := Some \<lparr>p0 = Some 1, p1 = Some 1, p2 = Some 0.5,
                   out_lte_in = Some (PyBool True), out_gte_in = None\<rparr>\<rparr>) [2] = [5]
   \<and> transform_score
        (model\<lparr>score_transform := Some \<lparr>p0 = Some 1, p1 = Some 1, p2 = Some 0.5,
                   out_lte_in = Some (PyStr ''true''), out_gte_in = None\<rparr>\<rparr>) [2] = [2]"
proof -
  have lte: "transform_score (model\<lparr>score_transform := Some td\<rparr>) ys
        = transform_score (model\<lparr>score_transform := Some (td\<lparr>out_lte_in := None\<rparr>)\<rparr>) ys"
    if "out_lte_in td = Some v \<and> v \<noteq> PyStr ''true''" for v
    using that by (simp add: transform_score_def)
  have gte: "transform_score (model\<lparr>score_transform := Some td\<rparr>) ys
        = transform_score (model\<lparr>score_transform := Some (td\<lparr>out_gte_in := None\<rparr>)\<rparr>) ys"
    if "out_gte_in td = Some v \<and> v \<noteq> PyStr ''true''" for v
    using that by (simp add: transform_score_def)
  have ex1: "transform_score
        (model\<lparr>score_transform := Some \<lparr>p0 = Some 1, p1 = Some 1, p2 = Some 0.5,
                   out_lte_in = Some (PyBool True), out_gte_in = None\<rparr>\<rparr>) [2] = [5]"
    by (simp add: transform_score_elementwise)
  have ex2: "transform_score
        (model\<lparr>score_transform := Some \<lparr>p0 = Some 1, p1 = Some 1, p2 = Some 0.5,
                   out_lte_in = Some (PyStr ''true''), out_gte_in = None\<rparr>\<rparr>) [2] = [2]"
    by (simp add: transform_score_elementwise)
  from lte gte ex1 ex2 show ?thesis by blast
qed

theorem rectification_only_on_string_true_witness:
  "transform_score
     \<lparr>predict = (\<lambda>x::unit. []),
      score_transform = Some \<lparr>p0 = None, p1 = Some 0.5, p2 = None,
                              out_lte_in = Some (PyBool True), out_gte_in = Some (PyNum 1)\<rparr>,
      score_clip = None\<rparr> [2, -2]
   = transform_score
     \<lparr>predict = (\<lambda>x::unit. []),
      score_transform = Some \<lparr>p0 = None, p1 = Some 0.5, p2 = None,
                              out_lte_in = None, out_gte_in = None\<rparr>,
      score_clip = None\<rparr> [2, -2]"
  using rectification_only_on_string_true [of
      "\<lparr>p0 = None, p1 = Some 0.5, p2 = None,
        out_lte_in = Some (PyBool True), out_gte_in = Some (PyNum 1)\<rparr>"
      "\<lparr>predict = (\<lambda>x::unit. []), score_transform = None, score_clip = None\<rparr>" "[2, -2]"]
    rectification_only_on_string_true [of
      "\<lparr>p0 = None, p1 = Some 0.5, p2 = None,
        out_lte_in = None, out_gte_in = Some (PyNum 1)\<rparr>"
      "\<lparr>predict = (\<lambda>x::unit. []), score_transform = None, score_clip = None\<rparr>" "[2, -2]"]
  by simp

subsection \<open>Prediction with a model\<close>

lemma clip_score_no_bounds: "score_clip model = None \<Longrightarrow> clip_score model ys = ys"
  by (simp add: clip_score_def)

lemma clip_score_bounds:
  "score_clip model = Some (lb, ub) \<Longrightarrow>
   clip_score model ys = map (\<lambda>y. min ub (max y lb)) ys"
  by (simp add: clip_score_def np_clip_def)

lemma predict_with_model_unfold:
  "predict_with_model VmafQualityRunner model xs kwargs =
     (if kwargs ''disable_clip_score'' = Some (PyBool True) then (\<lambda>ys. ys) else clip_score model)
       ((if kwargs ''enable_transform_score'' = Some (PyBool True)
         then transform_score model else (\<lambda>ys. ys)) (predict model xs))"
  by (simp add: predict_with_model_def Let_def split: option.splits)

text \<open>
  C3. predict_with_model of the general regression runner calls the model's predict,
  applies the transform step only when the enable-transform flag is True (without the
  flag it does not), and then applies the clip step unless the disable-clip flag is True.
  The clip step clips elementwise into the model's declared bounds [lower, upper] and
  returns its input when the model declares no clip bounds. Bounds (0, 100) on
  [-5, 50, 150] give [0, 50, 100].
\<close>

theorem predict_with_model_spec:
  "predict_with_model VmafQualityRunner model xs kwargs =
     (if kwargs ''disable_clip_score'' = Some (PyBool True) then (\<lambda>ys. ys) else clip_score model)
       ((if kwargs ''enable_transform_score'' = Some (PyBool True)
         then transform_score model else (\<lambda>ys. ys)) (predict model xs))
   \<and> predict_with_model VmafQualityRunner model xs Map.empty
       = clip_score model (predict model xs)
   \<and> (score_clip model = None \<longrightarrow> clip_score model ys = ys)
   \<and> (\<forall>lb ub. score_clip model = Some (lb, ub) \<longrightarrow>
         clip_score model ys = map (\<lambda>y. min ub (max y lb)) ys
         \<and> (lb \<le> ub \<longrightarrow> (\<forall>y \<in> set (clip_score model ys). lb \<le> y \<and> y \<le> ub)))
   \<and> clip_score (model\<lparr>score_clip := Some (0, 100)\<rparr>) [-5, 50, 150] = [0, 50, 100]"
proof -
  have dflt: "predict_with_model VmafQualityRunner model xs Map.empty
       = clip_score model (predict model xs)"
    by (simp add: predict_with_model_unfold)
  have bounds: "clip_score model ys = map (\<lambda>y. min ub (max y lb)) ys
         \<and> (lb \<le> ub \<longrightarrow> (\<forall>y \<in> set (clip_score model ys). lb \<le> y \<and> y \<le> ub))"
    if "score_clip model = Some (lb, ub)" for lb ub
    using that by (auto simp add: clip_score_bounds)
  have ex: "clip_score (model\<lparr>score_clip := Some (0, 100)\<rparr>) [-5, 50, 150] = [0, 50, 100]"
    by (simp add: clip_score_def np_clip_def)
  from predict_with_model_unfold [of model xs kwargs] dflt
    clip_score_no_bounds [of model ys] bounds ex
  show ?thesis by blast
qed


theorem predict_with_model_spec_witness:
  "predict_with_model VmafQualityRunner
     \<lparr>predict = (\<lambda>xs. xs), score_transform = None, score_clip = Some (0, 100)\<rparr>
     [-5, 50, 150] Map.empty = [0, 50, 100]"
proof -
  let ?m = "\<lparr>predict = (\<lambda>xs. xs), score_transform = None, score_clip = Some (0, 100)\<rparr>
              :: (real list) model"
  have sc: "score_clip ?m = Some (0, 100)" by simp
  from predict_with_model_spec [of ?m "[-5, 50, 150]" Map.empty "[-5, 50, 150]"]
  have run: "predict_with_model VmafQualityRunner ?m [-5, 50, 150] Map.empty
               = clip_score ?m (predict ?m [-5, 50, 150])"
    and clip: "\<forall>lb ub. score_clip ?m = Some (lb, ub) \<longrightarrow>
         clip_score ?m [-5, 50, 150] = map (\<lambda>y. min ub (max y lb)) [-5, 50, 150]
         \<and> (lb \<le> ub \<longrightarrow> (\<forall>y \<in> set (clip_score ?m [-5, 50, 150]). lb \<le> y \<and> y \<le> ub))"
    by blast+
  from clip sc have "clip_score ?m [-5, 50, 150] = map (\<lambda>y. min 100 (max y 0)) [-5, 50, 150]"
    by blast
  with run show ?thesis by simp
qed

subsection \<open>Phone-model runner\<close>

text \<open>
  C5. The phone-model runner behaves like the general regression runner except that its
  transform decision is True whatever the configuration: its prediction is the general
  one with the enable-transform flag forced to True. Its argument validation fails for
  every configuration that contains the enable-transform flag, whatever the value, so
  that no run is attempted; without the flag it adds nothing to the inherited
  validation.
\<close>

theorem phone_runner_spec:
  "do_transform_score VmafPhoneQualityRunner kwargs = True
   \<and> predict_with_model VmafPhoneQualityRunner model xs kwargs
       = predict_with_model VmafQualityRunner model xs
           (kwargs(''enable_transform_score'' \<mapsto> PyBool True))
   \<and> (d ''enable_transform_score'' = Some v \<longrightarrow>
         VmafPhone_assert_args (Inr ()) (Some d) = Inl AssertionError
         \<and> isl (VmafPhone_assert_args super_assert_args (Some d))
         \<and> validate_then_run (VmafPhone_assert_args (Inr ()) (Some d)) run
             = Inl AssertionError)
   \<and> (d ''enable_transform_score'' = None \<longrightarrow>
         VmafPhone_assert_args super_assert_args (Some d) = super_assert_args)
   \<and> VmafPhone_assert_args super_assert_args None = super_assert_args"
proof -
  have pw: "predict_with_model VmafPhoneQualityRunner model xs kwargs
       = predict_with_model VmafQualityRunner model xs
           (kwargs(''enable_transform_score'' \<mapsto> PyBool True))"
    by (simp add: predict_with_model_def Let_def)
  have rej: "VmafPhone_assert_args (Inr ()) (Some d) = Inl AssertionError
         \<and> isl (VmafPhone_assert_args super_assert_args (Some d))
         \<and> validate_then_run (VmafPhone_assert_args (Inr ()) (Some d)) run
             = Inl AssertionError"
    if "d ''enable_transform_score'' = Some v"
    using that
    by (cases super_assert_args) (simp_all add: VmafPhone_assert_args_def validate_then_run_def)
  have acc: "VmafPhone_assert_args super_assert_args (Some d) = super_assert_args"
    if "d ''enable_transform_score'' = None"
    using that by (cases super_assert_args) (simp_all add: VmafPhone_assert_args_def)
  have none: "VmafPhone_assert_args super_assert_args None = super_assert_args"
    by (cases super_assert_args) (simp_all add: VmafPhone_assert_args_def)
  have dt: "do_transform_score VmafPhoneQualityRunner kwargs = True"
    by simp
  from dt pw rej acc none show ?thesis by blast
qed

theorem phone_runner_spec_witness:
  "VmafPhone_assert_args (Inr ()) (Some [''enable_transform_score'' \<mapsto> PyBool False])
     = Inl AssertionError
   \<and> VmafPhone_assert_args (Inr ()) (Some [''disable_clip_score'' \<mapsto> PyBool True]) = Inr ()"
proof -
  have a: "[''enable_transform_score'' \<mapsto> PyBool False] ''enable_transform_score''
             = Some (PyBool False)"
    by simp
  have b: "[''disable_clip_score'' \<mapsto> PyBool True] ''enable_transform_score'' = None"
    by simp
  from a b
    phone_runner_spec [of Map.empty "\<lparr>predict = (\<lambda>xs. xs), score_transform = None, score_clip = None\<rparr>"
       "[]" "[''enable_transform_score'' \<mapsto> PyBool False]" "PyBool False" "Inr ()" "\<lambda>u. Inr ()"]
    phone_runner_spec [of Map.empty "\<lparr>predict = (\<lambda>xs. xs), score_transform = None, score_clip = None\<rparr>"
       "[]" "[''disable_clip_score'' \<mapsto> PyBool True]" "PyBool False" "Inr ()" "\<lambda>u. Inr ()"]
  show ?thesis by blast
qed

subsection \<open>Single-feature runners\<close>

text \<open>
  C8. For every single-feature passthrough runner and every feature result, the produced
  result maps the key "{type}_scores" of the runner to the per-frame sequence that the
  feature result holds for the runner's feature, unchanged, and holds no other key.
\<close>

theorem single_feature_passthrough:
  "(cls \<in> {Adm2QualityRunner, VifScale0QualityRunner, VifScale1QualityRunner,
            VifScale2QualityRunner, VifScale3QualityRunner, MotionQualityRunner}
    \<longrightarrow> (\<exists>name. FEATURE_NAME cls = Some name))
   \<and> (FEATURE_NAME cls = Some name
        \<and> feature_result (''VMAF_feature_'' @ name @ ''_scores'') = Some scores
      \<longrightarrow> SingleFeature_run_on_asset cls feature_result
            = Inr (Map.empty(TYPE_name cls @ ''_scores'' \<mapsto> scores)))
   \<and> (\<forall>r. SingleFeature_run_on_asset cls feature_result = Inr r
      \<longrightarrow> dom r = {get_scores_key cls}
          \<and> (\<exists>name. FEATURE_NAME cls = Some name
                \<and> r (get_scores_key cls)
                    = feature_result (VmafFeatureExtractor_get_scores_key name)))"
proof -
  have a: "\<exists>name. FEATURE_NAME cls = Some name"
    if "cls \<in> {Adm2QualityRunner, VifScale0QualityRunner, VifScale1QualityRunner,
            VifScale2QualityRunner, VifScale3QualityRunner, MotionQualityRunner}"
    using that by auto
  have b: "SingleFeature_run_on_asset cls feature_result
            = Inr (Map.empty(TYPE_name cls @ ''_scores'' \<mapsto> scores))"
    if "FEATURE_NAME cls = Some name
        \<and> feature_result (''VMAF_feature_'' @ name @ ''_scores'') = Some scores"
    using that
    by (simp add: SingleFeature_run_on_asset_def VmafFeatureExtractor_get_scores_key_def
        get_scores_key_def)
  have c: "dom r = {get_scores_key cls}
          \<and> (\<exists>name. FEATURE_NAME cls = Some name
                \<and> r (get_scores_key cls)
                    = feature_result (VmafFeatureExtractor_get_scores_key name))"
    if "SingleFeature_run_on_asset cls feature_result = Inr r" for r
    using that
    by (auto simp add: SingleFeature_run_on_asset_def split: option.splits if_splits)
  from a b c show ?thesis by blast
qed

theorem single_feature_passthrough_witness:
  "SingleFeature_run_on_asset Adm2QualityRunner
     [''VMAF_feature_adm2_scores'' \<mapsto> [0.9, 0.8], ''VMAF_feature_vif_scores'' \<mapsto> [0.5, 0.4]]
   = Inr [''ADM2_scores'' \<mapsto> [0.9, 0.8]]"
proof -
  let ?fr = "[''VMAF_feature_adm2_scores'' \<mapsto> [0.9, 0.8::real],
             ''VMAF_feature_vif_scores'' \<mapsto> [0.5, 0.4]]"
  have h: "FEATURE_NAME Adm2QualityRunner = Some ''adm2''
        \<and> ?fr (''VMAF_feature_'' @ ''adm2'' @ ''_scores'') = Some [0.9, 0.8]"
    by simp
  from single_feature_passthrough [of Adm2QualityRunner "''adm2''" ?fr "[0.9, 0.8]"] h
  have "SingleFeature_run_on_asset Adm2QualityRunner ?fr
            = Inr (Map.empty(TYPE_name Adm2QualityRunner @ ''_scores'' \<mapsto> [0.9, 0.8]))"
    by blast
  then show ?thesis by simp
qed

subsection \<open>Direct log parser\<close>

lemma matched_lines_Nil: "matched_lines [] = []"
  by (simp add: matched_lines_def map_filter_simps)

lemma matched_lines_Cons:
  "matched_lines (l # ls) =
     (case re_match_psnr l of None \<Rightarrow> matched_lines ls | Some m \<Rightarrow> m # matched_lines ls)"
  by (simp add: matched_lines_def map_filter_simps split: option.splits)

lemma upt_from_counter: "[c..<Suc (c + n)] = c # [Suc c..<Suc (c + n)]"
  by (simp add: upt_conv_Cons)

lemma psnr_loop_char:
  "psnr_loop ls scores counter = Inr r \<longleftrightarrow>
     map (py_int \<circ> fst) (matched_lines ls) = [counter..<counter + length (matched_lines ls)]
     \<and> (\<forall>m \<in> set (matched_lines ls). py_float (snd m) \<noteq> None)
     \<and> r = scores @ List.map_filter (\<lambda>m. py_float (snd m)) (matched_lines ls)"
proof (induction ls arbitrary: scores counter)
  case Nil
  then show ?case by (auto simp add: matched_lines_Nil map_filter_simps)
next
  case (Cons l ls)
  show ?case
  proof (cases "re_match_psnr l")
    case None
    then show ?thesis using Cons.IH [of scores counter]
      by (simp add: matched_lines_Cons)
  next
    case (Some m)
    obtain g1 g2 where m: "m = (g1, g2)" by (cases m)
    show ?thesis
    proof (cases "py_int g1 = counter")
      case False
      then show ?thesis using Some m
        by (simp add: matched_lines_Cons upt_from_counter del: upt_Suc)
    next
      case idx: True
      show ?thesis
      proof (cases "py_float g2")
        case None
        then show ?thesis using Some m idx
          by (simp add: matched_lines_Cons del: upt_Suc)
      next
        case (Some v)
        then show ?thesis
          using \<open>re_match_psnr l = Some m\<close> m idx Cons.IH [of "scores @ [v]" "Suc counter"]
          by (simp add: matched_lines_Cons upt_from_counter map_filter_simps del: upt_Suc)
      qed
    qed
  qed
qed

lemma map_filter_length_all:
  "(\<forall>x \<in> set xs. f x \<noteq> None) \<Longrightarrow> length (List.map_filter f xs) = length xs"
  by (induction xs) (auto simp add: map_filter_simps split: option.splits)

lemma Psnr_get_quality_scores_char:
  "Psnr_get_quality_scores lines = Inr r \<longleftrightarrow>
     matched_lines lines \<noteq> []
     \<and> map (py_int \<circ> fst) (matched_lines lines) = [0..<length (matched_lines lines)]
     \<and> (\<forall>m \<in> set (matched_lines lines). py_float (snd m) \<noteq> None)
     \<and> r = [''PSNR_scores'' \<mapsto> List.map_filter (\<lambda>m. py_float (snd m)) (matched_lines lines)]"
proof (cases "psnr_loop lines [] 0")
  case (Inl e)
  then have "\<not> (map (py_int \<circ> fst) (matched_lines lines) = [0..<0 + length (matched_lines lines)]
     \<and> (\<forall>m \<in> set (matched_lines lines). py_float (snd m) \<noteq> None))"
    using psnr_loop_char [of lines "[]" 0] by auto
  with Inl show ?thesis by (auto simp add: Psnr_get_quality_scores_def)
next
  case (Inr scores)
  then have ok: "map (py_int \<circ> fst) (matched_lines lines) = [0..<0 + length (matched_lines lines)]"
    "\<forall>m \<in> set (matched_lines lines). py_float (snd m) \<noteq> None"
    "scores = List.map_filter (\<lambda>m. py_float (snd m)) (matched_lines lines)"
    using psnr_loop_char [of lines "[]" 0 scores] by auto
  from ok(2) have len: "length scores = length (matched_lines lines)"
    unfolding ok(3) by (rule map_filter_length_all)
  show ?thesis using Inr ok len
    by (auto simp add: Psnr_get_quality_scores_def get_scores_key_def)
qed


lemma psnr_loop_no_match:
  "matched_lines ls = [] \<Longrightarrow> psnr_loop ls scores counter = Inr scores"
  using psnr_loop_char [of ls scores counter scores]
  by (simp add: map_filter_simps)

lemma psnr_examples:
  "Psnr_get_quality_scores [''psnr: 0 30.1'', ''psnr: 1 31.4'']
     = Inr [''PSNR_scores'' \<mapsto> [30.1, 31.4]]"
  "Psnr_get_quality_scores [''psnr: 0 30.1'', ''psnr: 2 31.4''] = Inl AssertionError"
  by (simp_all add: Psnr_get_quality_scores_def re_match_psnr_def is_digit_def
      is_value_char_def py_int_def py_float_def digit_value_def get_scores_key_def)

text \<open>
  C6 (amended). For every plain-text log, the direct log parser succeeds exactly when at
  least one line matches, the frame indices of the matched lines are 0, 1, 2, ... in line
  order, and the value text of every matched line is accepted by float; it then returns
  the values in line order under the key "PSNR_scores". With no matched line, and with a
  gap, a repeat or an out-of-order index, it fails. The lines "psnr: 0 30.1" and
  "psnr: 1 31.4" give [30.1, 31.4]; the indices 0, 2 fail with an AssertionError.
\<close>

theorem psnr_parser_spec:
  "((\<exists>r. Psnr_get_quality_scores lines = Inr r) \<longleftrightarrow>
       matched_lines lines \<noteq> []
       \<and> map (py_int \<circ> fst) (matched_lines lines) = [0..<length (matched_lines lines)]
       \<and> (\<forall>m \<in> set (matched_lines lines). py_float (snd m) \<noteq> None))
   \<and> (\<forall>r. Psnr_get_quality_scores lines = Inr r \<longrightarrow>
         r = [''PSNR_scores'' \<mapsto>
                List.map_filter (\<lambda>m. py_float (snd m)) (matched_lines lines)])
   \<and> (matched_lines lines = [] \<longrightarrow> Psnr_get_quality_scores lines = Inl AssertionError)
   \<and> Psnr_get_quality_scores [''psnr: 0 30.1'', ''psnr: 1 31.4'']
       = Inr [''PSNR_scores'' \<mapsto> [30.1, 31.4]]
   \<and> Psnr_get_quality_scores [''psnr: 0 30.1'', ''psnr: 2 31.4''] = Inl AssertionError"
proof -
  have a: "(\<exists>r. Psnr_get_quality_scores lines = Inr r) \<longleftrightarrow>
       matched_lines lines \<noteq> []
       \<and> map (py_int \<circ> fst) (matched_lines lines) = [0..<length (matched_lines lines)]
       \<and> (\<forall>m \<in> set (matched_lines lines). py_float (snd m) \<noteq> None)"
    unfolding Psnr_get_quality_scores_char by blast
  have b: "r = [''PSNR_scores'' \<mapsto>
                List.map_filter (\<lambda>m. py_float (snd m)) (matched_lines lines)]"
    if "Psnr_get_quality_scores lines = Inr r" for r
    using that unfolding Psnr_get_quality_scores_char by blast
  have c: "Psnr_get_quality_scores lines = Inl AssertionError"
    if "matched_lines lines = []"
    using psnr_loop_no_match [OF that, of "[]" 0]
    by (simp add: Psnr_get_quality_scores_def)
  from a b c psnr_examples show ?thesis by blast
qed

theorem psnr_parser_spec_witness:
  "Psnr_get_quality_scores [''psnr: 0 30.1'', ''# frame'', ''psnr: 1 -31.'']
     = Inr [''PSNR_scores'' \<mapsto> [30.1, - 31]]"
proof -
  let ?lines = "[''psnr: 0 30.1'', ''# frame'', ''psnr: 1 -31.'']"
  have ml: "matched_lines ?lines = [(''0'', ''30.1''), (''1'', ''-31.'')]"
    by (simp add: matched_lines_def map_filter_simps re_match_psnr_def is_digit_def
        is_value_char_def)
  have vals: "py_float ''30.1'' = Some 30.1" "py_float ''-31.'' = Some (- 31)"
    by (simp_all add: py_float_def py_int_def digit_value_def is_digit_def)
  have nn: "py_float ''30.1'' \<noteq> None" "py_float ''-31.'' \<noteq> None"
    unfolding vals by simp_all
  have idx: "py_int ''0'' = 0" "py_int ''1'' = 1"
    by (simp_all add: py_int_def digit_value_def)
  have ok: "matched_lines ?lines \<noteq> []
       \<and> map (py_int \<circ> fst) (matched_lines ?lines) = [0..<length (matched_lines ?lines)]
       \<and> (\<forall>m \<in> set (matched_lines ?lines). py_float (snd m) \<noteq> None)"
    unfolding ml using nn by (simp add: idx del: not_None_eq)
  with psnr_parser_spec [of ?lines] obtain r where r: "Psnr_get_quality_scores ?lines = Inr r"
    by blast
  with psnr_parser_spec [of ?lines]
  have "r = [''PSNR_scores'' \<mapsto>
                List.map_filter (\<lambda>m. py_float (snd m)) (matched_lines ?lines)]"
    by blast
  then have "r = [''PSNR_scores'' \<mapsto> [30.1, - 31]]"
    unfolding ml by (simp add: map_filter_simps vals)
  with r show ?thesis by simp
qed

text \<open>
  The log of the single line "psnr: 0 1.2.3" has one matched line, with index 0, and yet
  the parser fails on it, with the ValueError of float.
\<close>

theorem psnr_parser_counterexample:
  "matched_lines [''psnr: 0 1.2.3''] = [(''0'', ''1.2.3'')]
   \<and> map (py_int \<circ> fst) (matched_lines [''psnr: 0 1.2.3''])
       = [0..<length (matched_lines [''psnr: 0 1.2.3''])]
   \<and> Psnr_get_quality_scores [''psnr: 0 1.2.3''] = Inl ValueError"
  by (simp add: matched_lines_def map_filter_simps Psnr_get_quality_scores_def
      re_match_psnr_def is_digit_def is_value_char_def py_int_def py_float_def
      digit_value_def)

subsection \<open>Structured log parser\<close>

lemma present_values_Nil: "present_values float_of feature [] = []"
  by (simp add: present_values_def map_filter_simps)

lemma present_values_Cons:
  "present_values float_of feature (frame # frames) =
     frame_values float_of frame feature @ present_values float_of feature frames"
  by (simp add: present_values_def frame_values_def map_filter_simps split: option.splits)

lemma frame_features_ok:
  assumes "k + length names \<le> length fs"
    and "\<forall>f \<in> set names. \<forall>s. attrib f = Some s \<longrightarrow> float_of s \<noteq> None"
  shows "\<exists>fs'. frame_features float_of attrib (enumerate k names) fs = Inr fs'
           \<and> length fs' = length fs
           \<and> (\<forall>j < length fs. fs' ! j =
                 (if k \<le> j \<and> j < k + length names
                  then fs ! j @ frame_values float_of attrib (names ! (j - k))
                  else fs ! j))"
  using assms
proof (induction names arbitrary: k fs)
  case Nil
  then show ?case by auto
next
  case (Cons f names)
  define fs1 where "fs1 = fs[k := fs ! k @ frame_values float_of attrib f]"
  have step: "frame_features float_of attrib (enumerate k (f # names)) fs
               = frame_features float_of attrib (enumerate (Suc k) names) fs1"
    using Cons.prems(2)
    by (auto simp add: fs1_def frame_values_def split: option.splits)
  have len1: "length fs1 = length fs" by (simp add: fs1_def)
  from Cons.prems have "Suc k + length names \<le> length fs1"
    and "\<forall>f \<in> set names. \<forall>s. attrib f = Some s \<longrightarrow> float_of s \<noteq> None"
    by (simp_all add: len1)
  from Cons.IH [OF this] obtain fs' where
    r: "frame_features float_of attrib (enumerate (Suc k) names) fs1 = Inr fs'"
    and l: "length fs' = length fs1"
    and n: "\<forall>j < length fs1. fs' ! j =
                 (if Suc k \<le> j \<and> j < Suc k + length names
                  then fs1 ! j @ frame_values float_of attrib (names ! (j - Suc k))
                  else fs1 ! j)"
    by blast
  have "fs' ! j =
                 (if k \<le> j \<and> j < k + length (f # names)
                  then fs ! j @ frame_values float_of attrib ((f # names) ! (j - k))
                  else fs ! j)" if "j < length fs" for j
  proof (cases "j = k")
    case True
    with n that len1 show ?thesis by (simp add: fs1_def)
  next
    case False
    show ?thesis
    proof (cases "j < k")
      case True
      with n that len1 show ?thesis by (simp add: fs1_def)
    next
      case above: False
      with False have "j - k = Suc (j - Suc k)" by simp
      then have "(f # names) ! (j - k) = names ! (j - Suc k)" by simp
      with n that len1 False above show ?thesis by (simp add: fs1_def)
    qed
  qed
  with r l len1 step show ?case by simp
qed


lemma frame_features_features:
  assumes "length fs = length FEATURES"
    and "\<forall>f \<in> set FEATURES. \<forall>s. attrib f = Some s \<longrightarrow> float_of s \<noteq> None"
  shows "\<exists>fs'. frame_features float_of attrib (enumerate 0 FEATURES) fs = Inr fs'
           \<and> length fs' = length FEATURES
           \<and> (\<forall>j < length FEATURES. fs' ! j =
                 fs ! j @ frame_values float_of attrib (FEATURES ! j))"
proof -
  from assms(1) have "0 + length FEATURES \<le> length fs" by simp
  from frame_features_ok [OF this assms(2)] assms(1) show ?thesis by auto
qed

lemma frames_loop_ok:
  assumes "length fs = length FEATURES"
    and "\<forall>frame \<in> set frames. \<exists>s. frame ''vmaf'' = Some s \<and> float_of s \<noteq> None"
    and "\<forall>frame \<in> set frames. \<forall>f \<in> set FEATURES. \<forall>s.
           frame f = Some s \<longrightarrow> float_of s \<noteq> None"
  shows "\<exists>fs'. frames_loop float_of frames scores fs
                 = Inr (scores @ present_values float_of ''vmaf'' frames, fs')
           \<and> length fs' = length FEATURES
           \<and> (\<forall>j < length FEATURES. fs' ! j =
                 fs ! j @ present_values float_of (FEATURES ! j) frames)"
  using assms
proof (induction frames arbitrary: scores fs)
  case Nil
  then show ?case by (simp add: present_values_Nil)
next
  case (Cons frame frames)
  from Cons.prems(2) obtain s v where s: "frame ''vmaf'' = Some s" and v: "float_of s = Some v"
    by auto
  from Cons.prems(3)
  have "\<forall>f \<in> set FEATURES. \<forall>s. frame f = Some s \<longrightarrow> float_of s \<noteq> None"
    by simp
  from frame_features_features [OF Cons.prems(1) this] obtain fs1 where
    r1: "frame_features float_of frame (enumerate 0 FEATURES) fs = Inr fs1"
    and l1: "length fs1 = length FEATURES"
    and n1: "\<forall>j < length FEATURES. fs1 ! j =
                 fs ! j @ frame_values float_of frame (FEATURES ! j)"
    by blast
  from Cons.prems(2,3)
  have p2: "\<forall>frame \<in> set frames. \<exists>s. frame ''vmaf'' = Some s \<and> float_of s \<noteq> None"
    and p3: "\<forall>frame \<in> set frames. \<forall>f \<in> set FEATURES. \<forall>s.
           frame f = Some s \<longrightarrow> float_of s \<noteq> None"
    by simp_all
  from Cons.IH [OF l1 p2 p3, of "scores @ [v]"] obtain fs' where
    r: "frames_loop float_of frames (scores @ [v]) fs1
          = Inr ((scores @ [v]) @ present_values float_of ''vmaf'' frames, fs')"
    and l: "length fs' = length FEATURES"
    and n: "\<forall>j < length FEATURES. fs' ! j =
                 fs1 ! j @ present_values float_of (FEATURES ! j) frames"
    by blast
  have step: "frames_loop float_of (frame # frames) scores fs
        = frames_loop float_of frames (scores @ [v]) fs1"
    by (simp add: s v r1)
  have vm: "present_values float_of ''vmaf'' (frame # frames)
        = v # present_values float_of ''vmaf'' frames"
    by (simp add: present_values_Cons frame_values_def s v)
  from step r l n n1 vm show ?case
    by (simp add: present_values_Cons)
qed

lemma frames_loop_missing_vmaf:
  "\<exists>frame \<in> set frames. frame ''vmaf'' = None \<Longrightarrow>
   isl (frames_loop float_of frames scores fs)"
proof (induction frames arbitrary: scores fs)
  case Nil
  then show ?case by simp
next
  case (Cons frame frames)
  show ?case
  proof (cases "frame ''vmaf''")
    case None
    then show ?thesis by simp
  next
    case (Some s)
    with Cons.prems have "\<exists>frame \<in> set frames. frame ''vmaf'' = None" by auto
    from Cons.IH [OF this] Some show ?thesis
      by (simp split: option.splits sum.splits)
  qed
qed


lemma feature_key_inj:
  "get_feature_scores_key cls f = get_feature_scores_key cls g \<longleftrightarrow> f = g"
  by (simp add: get_feature_scores_key_def)

lemma add_feature_scores_other:
  "key \<notin> get_feature_scores_key VmafossExecQualityRunner ` set names \<Longrightarrow>
   add_feature_scores (enumerate k names) fs q key = q key"
  by (induction names arbitrary: k q) auto

lemma add_feature_scores_at:
  "distinct names \<Longrightarrow> i < length names \<Longrightarrow>
   add_feature_scores (enumerate k names) fs q
       (get_feature_scores_key VmafossExecQualityRunner (names ! i))
     = (if fs ! (k + i) \<noteq> [] then Some (fs ! (k + i))
        else q (get_feature_scores_key VmafossExecQualityRunner (names ! i)))"
proof (induction names arbitrary: k q i)
  case Nil
  then show ?case by simp
next
  case (Cons f names)
  show ?case
  proof (cases i)
    case 0
    from Cons.prems(1)
    have "get_feature_scores_key VmafossExecQualityRunner f
            \<notin> get_feature_scores_key VmafossExecQualityRunner ` set names"
      by (auto simp add: feature_key_inj)
    with 0 show ?thesis by (simp add: add_feature_scores_other)
  next
    case (Suc i')
    with Cons.prems have d: "distinct names" and i': "i' < length names"
      and ne: "names ! i' \<noteq> f"
      by auto
    from Cons.IH [OF d i', of "Suc k"] Suc ne show ?thesis
      by (simp add: feature_key_inj)
  qed
qed

lemma add_feature_scores_dom:
  "dom (add_feature_scores (enumerate k names) fs q)
     \<subseteq> dom q \<union> get_feature_scores_key VmafossExecQualityRunner ` set names"
proof
  fix key
  assume in_dom: "key \<in> dom (add_feature_scores (enumerate k names) fs q)"
  show "key \<in> dom q \<union> get_feature_scores_key VmafossExecQualityRunner ` set names"
  proof (cases "key \<in> get_feature_scores_key VmafossExecQualityRunner ` set names")
    case True
    then show ?thesis by simp
  next
    case False
    from add_feature_scores_other [OF False, of k fs q] in_dom show ?thesis
      by (simp add: dom_def)
  qed
qed

lemma present_values_length:
  "\<forall>frame \<in> set frames. \<forall>s. frame f = Some s \<longrightarrow> float_of s \<noteq> None \<Longrightarrow>
   length (present_values float_of f frames)
     = length (filter (\<lambda>frame. frame f \<noteq> None) frames)"
  by (induction frames)
     (auto simp add: present_values_Nil present_values_Cons frame_values_def
           split: option.splits)

lemma FEATURES_distinct: "distinct FEATURES"
  by (simp add: FEATURES_def)

lemma scores_key_not_feature_key:
  "get_scores_key VmafossExecQualityRunner
     \<notin> get_feature_scores_key VmafossExecQualityRunner ` set FEATURES"
  by (simp add: FEATURES_def get_scores_key_def get_feature_scores_key_def)


lemma present_values_empty_iff:
  assumes "\<forall>frame \<in> set frames. \<forall>s. frame f = Some s \<longrightarrow> float_of s \<noteq> None"
  shows "present_values float_of f frames = [] \<longleftrightarrow> (\<forall>frame \<in> set frames. frame f = None)"
proof -
  have "(present_values float_of f frames = [])
          = (length (present_values float_of f frames) = 0)"
    by simp
  also have "\<dots> = (length (filter (\<lambda>frame. frame f \<noteq> None) frames) = 0)"
    by (simp only: present_values_length [OF assms])
  also have "\<dots> = (\<forall>frame \<in> set frames. frame f = None)"
    by (simp add: filter_empty_conv)
  finally show ?thesis .
qed

lemma present_values_vmaf_length:
  assumes "\<forall>frame \<in> set frames. \<exists>s. frame ''vmaf'' = Some s \<and> float_of s \<noteq> None"
  shows "length (present_values float_of ''vmaf'' frames) = length frames"
proof -
  from assms
  have a: "\<forall>frame \<in> set frames. \<forall>s. frame ''vmaf'' = Some s \<longrightarrow> float_of s \<noteq> None"
    by auto
  from assms have b: "filter (\<lambda>frame. frame ''vmaf'' \<noteq> None) frames = frames"
    by (auto simp add: filter_id_conv)
  from present_values_length [OF a] b show ?thesis by simp
qed

lemma Vmafossexec_result:
  assumes ne: "frames \<noteq> []"
    and vm: "\<forall>frame \<in> set frames. \<exists>s. frame ''vmaf'' = Some s \<and> float_of s \<noteq> None"
    and ft: "\<forall>frame \<in> set frames. \<forall>f \<in> set FEATURES. \<forall>s.
           frame f = Some s \<longrightarrow> float_of s \<noteq> None"
  shows "\<exists>fs'. Vmafossexec_get_quality_scores float_of frames
           = Inr (add_feature_scores (enumerate 0 FEATURES) fs'
                    (Map.empty(get_scores_key VmafossExecQualityRunner
                                 \<mapsto> present_values float_of ''vmaf'' frames)))
         \<and> (\<forall>j < length FEATURES. fs' ! j = present_values float_of (FEATURES ! j) frames)"
proof -
  have l0: "length (replicate (length FEATURES) ([]::real list)) = length FEATURES" by simp
  from frames_loop_ok [OF l0 vm ft, of "[]"] obtain fs' where
    r: "frames_loop float_of frames [] (replicate (length FEATURES) [])
          = Inr ([] @ present_values float_of ''vmaf'' frames, fs')"
    and n: "\<forall>j < length FEATURES. fs' ! j
              = replicate (length FEATURES) [] ! j @ present_values float_of (FEATURES ! j) frames"
    by blast
  from n have n': "\<forall>j < length FEATURES. fs' ! j = present_values float_of (FEATURES ! j) frames"
    by simp
  from present_values_vmaf_length [OF vm] ne
  have "length (present_values float_of ''vmaf'' frames) \<noteq> 0" by simp
  with r have "Vmafossexec_get_quality_scores float_of frames
           = Inr (add_feature_scores (enumerate 0 FEATURES) fs'
                    (Map.empty(get_scores_key VmafossExecQualityRunner
                                 \<mapsto> present_values float_of ''vmaf'' frames)))"
    by (simp add: Vmafossexec_get_quality_scores_def)
  with n' show ?thesis by blast
qed


lemma Vmafossexec_success:
  assumes ne: "frames \<noteq> []"
    and vm: "\<forall>frame \<in> set frames. \<exists>s. frame ''vmaf'' = Some s \<and> float_of s \<noteq> None"
    and ft: "\<forall>frame \<in> set frames. \<forall>f \<in> set FEATURES. \<forall>s.
           frame f = Some s \<longrightarrow> float_of s \<noteq> None"
  shows "\<exists>r. Vmafossexec_get_quality_scores float_of frames = Inr r
          \<and> r (get_scores_key VmafossExecQualityRunner)
              = Some (present_values float_of ''vmaf'' frames)
          \<and> (\<forall>f \<in> set FEATURES.
                r (get_feature_scores_key VmafossExecQualityRunner f)
                  = (if \<forall>frame \<in> set frames. frame f = None then None
                     else Some (present_values float_of f frames)))
          \<and> dom r \<subseteq> insert (get_scores_key VmafossExecQualityRunner)
                       (get_feature_scores_key VmafossExecQualityRunner ` set FEATURES)"
proof -
  define sk where "sk = get_scores_key VmafossExecQualityRunner"
  define q where "q = Map.empty(sk \<mapsto> present_values float_of ''vmaf'' frames)"
  from Vmafossexec_result [OF ne vm ft] obtain fs' where
    res: "Vmafossexec_get_quality_scores float_of frames
           = Inr (add_feature_scores (enumerate 0 FEATURES) fs' q)"
    and n: "\<forall>j < length FEATURES. fs' ! j = present_values float_of (FEATURES ! j) frames"
    unfolding q_def sk_def by blast
  define r where "r = add_feature_scores (enumerate 0 FEATURES) fs' q"
  have nk: "sk \<notin> get_feature_scores_key VmafossExecQualityRunner ` set FEATURES"
    unfolding sk_def by (rule scores_key_not_feature_key)
  have p1: "r sk = Some (present_values float_of ''vmaf'' frames)"
    unfolding r_def add_feature_scores_other [OF nk] by (simp add: q_def)
  have p2: "r (get_feature_scores_key VmafossExecQualityRunner f)
                  = (if \<forall>frame \<in> set frames. frame f = None then None
                     else Some (present_values float_of f frames))"
    if f: "f \<in> set FEATURES" for f
  proof -
    from f obtain i where i: "i < length FEATURES" and fi: "FEATURES ! i = f"
      by (auto simp add: in_set_conv_nth)
    from ft f have "\<forall>frame \<in> set frames. \<forall>s. frame f = Some s \<longrightarrow> float_of s \<noteq> None"
      by blast
    note e = present_values_empty_iff [OF this]
    from nk f have "get_feature_scores_key VmafossExecQualityRunner f \<noteq> sk"
      by blast
    then have qf: "q (get_feature_scores_key VmafossExecQualityRunner f) = None"
      by (simp add: q_def)
    from n i fi have v: "fs' ! (0 + i) = present_values float_of f frames"
      by simp
    have "r (get_feature_scores_key VmafossExecQualityRunner (FEATURES ! i))
            = (if fs' ! (0 + i) \<noteq> [] then Some (fs' ! (0 + i))
               else q (get_feature_scores_key VmafossExecQualityRunner (FEATURES ! i)))"
      unfolding r_def by (rule add_feature_scores_at [OF FEATURES_distinct i])
    then show ?thesis
      unfolding fi v qf using e by simp
  qed
  have p3: "dom r \<subseteq> insert sk (get_feature_scores_key VmafossExecQualityRunner ` set FEATURES)"
    unfolding r_def using add_feature_scores_dom [of 0 FEATURES fs' q]
    by (simp add: q_def)
  from p2 have p2': "\<forall>f \<in> set FEATURES.
                r (get_feature_scores_key VmafossExecQualityRunner f)
                  = (if \<forall>frame \<in> set frames. frame f = None then None
                     else Some (present_values float_of f frames))"
    by blast
  from res have res': "Vmafossexec_get_quality_scores float_of frames = Inr r"
    by (simp only: r_def)
  have "Vmafossexec_get_quality_scores float_of frames = Inr r
          \<and> r sk = Some (present_values float_of ''vmaf'' frames)
          \<and> (\<forall>f \<in> set FEATURES.
                r (get_feature_scores_key VmafossExecQualityRunner f)
                  = (if \<forall>frame \<in> set frames. frame f = None then None
                     else Some (present_values float_of f frames)))
          \<and> dom r \<subseteq> insert sk (get_feature_scores_key VmafossExecQualityRunner ` set FEATURES)"
    using res' p1 p2' p3 by (intro conjI)
  then show ?thesis unfolding sk_def by (rule exI [where x = r])
qed

lemma Vmafossexec_missing_vmaf:
  "\<exists>frame \<in> set frames. frame ''vmaf'' = None \<Longrightarrow>
   isl (Vmafossexec_get_quality_scores float_of frames)"
  using frames_loop_missing_vmaf [of frames float_of "[]" "replicate (length FEATURES) []"]
  by (cases "frames_loop float_of frames [] (replicate (length FEATURES) [])")
     (simp_all add: Vmafossexec_get_quality_scores_def)

lemma Vmafossexec_no_frames:
  "Vmafossexec_get_quality_scores float_of [] = Inl AssertionError"
  by (simp add: Vmafossexec_get_quality_scores_def)


text \<open>
  C7. For every structured per-frame log: zero frames is fatal, and a frame without the
  final-score attribute is fatal. A frame without a sub-feature attribute is tolerated:
  when there is a frame, every frame carries a final score that float accepts and every
  sub-feature attribute present is accepted by float, the parser succeeds; the final
  score sequence has one value per frame, the sequence of a sub-feature has one value
  per frame that carries it (so 2 values when one of 3 frames lacks it), and a
  sub-feature absent from all frames has no entry in the result.
\<close>

theorem vmafossexec_parser_spec:
  "Vmafossexec_get_quality_scores float_of [] = Inl AssertionError
   \<and> ((\<exists>frame \<in> set frames. frame ''vmaf'' = None) \<longrightarrow>
         isl (Vmafossexec_get_quality_scores float_of frames))
   \<and> (frames \<noteq> []
        \<and> (\<forall>frame \<in> set frames. \<exists>s. frame ''vmaf'' = Some s \<and> float_of s \<noteq> None)
        \<and> (\<forall>frame \<in> set frames. \<forall>f \<in> set FEATURES. \<forall>s.
              frame f = Some s \<longrightarrow> float_of s \<noteq> None)
      \<longrightarrow> (\<exists>r. Vmafossexec_get_quality_scores float_of frames = Inr r
            \<and> r (get_scores_key VmafossExecQualityRunner)
                = Some (present_values float_of ''vmaf'' frames)
            \<and> length (present_values float_of ''vmaf'' frames) = length frames
            \<and> (\<forall>f \<in> set FEATURES.
                  r (get_feature_scores_key VmafossExecQualityRunner f)
                    = (if \<forall>frame \<in> set frames. frame f = None then None
                       else Some (present_values float_of f frames))
                  \<and> length (present_values float_of f frames)
                      = length (filter (\<lambda>frame. frame f \<noteq> None) frames))
            \<and> dom r \<subseteq> insert (get_scores_key VmafossExecQualityRunner)
                         (get_feature_scores_key VmafossExecQualityRunner ` set FEATURES)))
   \<and> get_scores_key VmafossExecQualityRunner = ''VMAFOSSEXEC_scores''
   \<and> get_feature_scores_key VmafossExecQualityRunner feature
       = ''VMAFOSSEXEC_'' @ feature @ ''_scores''"
proof -
  have a: "isl (Vmafossexec_get_quality_scores float_of frames)"
    if "\<exists>frame \<in> set frames. frame ''vmaf'' = None"
    using that by (rule Vmafossexec_missing_vmaf)
  have b: "\<exists>r. Vmafossexec_get_quality_scores float_of frames = Inr r
            \<and> r (get_scores_key VmafossExecQualityRunner)
                = Some (present_values float_of ''vmaf'' frames)
            \<and> length (present_values float_of ''vmaf'' frames) = length frames
            \<and> (\<forall>f \<in> set FEATURES.
                  r (get_feature_scores_key VmafossExecQualityRunner f)
                    = (if \<forall>frame \<in> set frames. frame f = None then None
                       else Some (present_values float_of f frames))
                  \<and> length (present_values float_of f frames)
                      = length (filter (\<lambda>frame. frame f \<noteq> None) frames))
            \<and> dom r \<subseteq> insert (get_scores_key VmafossExecQualityRunner)
                         (get_feature_scores_key VmafossExecQualityRunner ` set FEATURES)"
    if h: "frames \<noteq> []
        \<and> (\<forall>frame \<in> set frames. \<exists>s. frame ''vmaf'' = Some s \<and> float_of s \<noteq> None)
        \<and> (\<forall>frame \<in> set frames. \<forall>f \<in> set FEATURES. \<forall>s.
              frame f = Some s \<longrightarrow> float_of s \<noteq> None)"
  proof -
    from h have ne: "frames \<noteq> []"
      and vm: "\<forall>frame \<in> set frames. \<exists>s. frame ''vmaf'' = Some s \<and> float_of s \<noteq> None"
      and ft: "\<forall>frame \<in> set frames. \<forall>f \<in> set FEATURES. \<forall>s.
              frame f = Some s \<longrightarrow> float_of s \<noteq> None"
      by blast+
    from Vmafossexec_success [OF ne vm ft] obtain r where
      r1: "Vmafossexec_get_quality_scores float_of frames = Inr r"
      and r2: "r (get_scores_key VmafossExecQualityRunner)
                = Some (present_values float_of ''vmaf'' frames)"
      and r3: "\<forall>f \<in> set FEATURES.
                r (get_feature_scores_key VmafossExecQualityRunner f)
                  = (if \<forall>frame \<in> set frames. frame f = None then None
                     else Some (present_values float_of f frames))"
      and r4: "dom r \<subseteq> insert (get_scores_key VmafossExecQualityRunner)
                       (get_feature_scores_key VmafossExecQualityRunner ` set FEATURES)"
      by blast
    note r5 = present_values_vmaf_length [OF vm]
    have r6: "length (present_values float_of f frames)
                      = length (filter (\<lambda>frame. frame f \<noteq> None) frames)"
      if "f \<in> set FEATURES" for f
    proof -
      from ft that
      have "\<forall>frame \<in> set frames. \<forall>s. frame f = Some s \<longrightarrow> float_of s \<noteq> None"
        by blast
      then show ?thesis by (rule present_values_length)
    qed
    from r3 r6 have r36: "\<forall>f \<in> set FEATURES.
                  r (get_feature_scores_key VmafossExecQualityRunner f)
                    = (if \<forall>frame \<in> set frames. frame f = None then None
                       else Some (present_values float_of f frames))
                  \<and> length (present_values float_of f frames)
                      = length (filter (\<lambda>frame. frame f \<noteq> None) frames)"
      by blast
    have "Vmafossexec_get_quality_scores float_of frames = Inr r
            \<and> r (get_scores_key VmafossExecQualityRunner)
                = Some (present_values float_of ''vmaf'' frames)
            \<and> length (present_values float_of ''vmaf'' frames) = length frames
            \<and> (\<forall>f \<in> set FEATURES.
                  r (get_feature_scores_key VmafossExecQualityRunner f)
                    = (if \<forall>frame \<in> set frames. frame f = None then None
                       else Some (present_values float_of f frames))
                  \<and> length (present_values float_of f frames)
                      = length (filter (\<lambda>frame. frame f \<noteq> None) frames))
            \<and> dom r \<subseteq> insert (get_scores_key VmafossExecQualityRunner)
                         (get_feature_scores_key VmafossExecQualityRunner ` set FEATURES)"
      using r1 r2 r5 r36 r4 by (intro conjI)
    then show ?thesis by (rule exI [where x = r])
  qed
  have c: "get_scores_key VmafossExecQualityRunner = ''VMAFOSSEXEC_scores''"
    by (simp add: get_scores_key_def)
  have d: "get_feature_scores_key VmafossExecQualityRunner feature
       = ''VMAFOSSEXEC_'' @ feature @ ''_scores''"
    by (simp add: get_feature_scores_key_def)
  show ?thesis
    using Vmafossexec_no_frames [of float_of] a b c d
    by (intro conjI impI) blast+
qed


theorem vmafossexec_parser_spec_witness:
  "\<exists>r. Vmafossexec_get_quality_scores py_float
          [[''vmaf'' \<mapsto> ''90.5'', ''adm2'' \<mapsto> ''0.9'', ''motion'' \<mapsto> ''3.5''],
           [''vmaf'' \<mapsto> ''80'', ''motion'' \<mapsto> ''4.''],
           [''vmaf'' \<mapsto> ''85.25'', ''adm2'' \<mapsto> ''0.8'', ''motion'' \<mapsto> ''2'']] = Inr r
      \<and> r ''VMAFOSSEXEC_scores'' = Some [90.5, 80, 85.25]
      \<and> r ''VMAFOSSEXEC_adm2_scores'' = Some [0.9, 0.8]
      \<and> r ''VMAFOSSEXEC_motion_scores'' = Some [3.5, 4, 2]
      \<and> r ''VMAFOSSEXEC_vif_scores'' = None"
proof -
  let ?f1 = "[''vmaf'' \<mapsto> ''90.5'', ''adm2'' \<mapsto> ''0.9'', ''motion'' \<mapsto> ''3.5'']"
  let ?f2 = "[''vmaf'' \<mapsto> ''80'', ''motion'' \<mapsto> ''4.'']"
  let ?f3 = "[''vmaf'' \<mapsto> ''85.25'', ''adm2'' \<mapsto> ''0.8'', ''motion'' \<mapsto> ''2'']"
  let ?frames = "[?f1, ?f2, ?f3]"
  have fl: "py_float ''90.5'' = Some 90.5" "py_float ''80'' = Some 80"
    "py_float ''85.25'' = Some 85.25" "py_float ''0.9'' = Some 0.9"
    "py_float ''0.8'' = Some 0.8" "py_float ''3.5'' = Some 3.5"
    "py_float ''4.'' = Some 4" "py_float ''2'' = Some 2"
    by (simp_all add: py_float_def py_int_def digit_value_def is_digit_def)
  have nn: "py_float ''90.5'' \<noteq> None" "py_float ''80'' \<noteq> None"
    "py_float ''85.25'' \<noteq> None" "py_float ''0.9'' \<noteq> None"
    "py_float ''0.8'' \<noteq> None" "py_float ''3.5'' \<noteq> None"
    "py_float ''4.'' \<noteq> None" "py_float ''2'' \<noteq> None"
    unfolding fl by simp_all
  have ne: "?frames \<noteq> []" by simp
  have vm: "\<forall>frame \<in> set ?frames. \<exists>s. frame ''vmaf'' = Some s \<and> py_float s \<noteq> None"
    using nn by (simp del: not_None_eq)
  have ft: "\<forall>frame \<in> set ?frames. \<forall>f \<in> set FEATURES. \<forall>s.
              frame f = Some s \<longrightarrow> py_float s \<noteq> None"
    using nn by (simp add: FEATURES_def del: not_None_eq)
  from vmafossexec_parser_spec [of py_float ?frames "''adm2''"] ne vm ft
  obtain r where
    r1: "Vmafossexec_get_quality_scores py_float ?frames = Inr r"
    and r2: "r (get_scores_key VmafossExecQualityRunner)
                = Some (present_values py_float ''vmaf'' ?frames)"
    and r3: "\<forall>f \<in> set FEATURES.
                  r (get_feature_scores_key VmafossExecQualityRunner f)
                    = (if \<forall>frame \<in> set ?frames. frame f = None then None
                       else Some (present_values py_float f ?frames))
                  \<and> length (present_values py_float f ?frames)
                      = length (filter (\<lambda>frame. frame f \<noteq> None) ?frames)"
    by blast
  from r2 have s: "r ''VMAFOSSEXEC_scores'' = Some [90.5, 80, 85.25]"
    by (simp add: get_scores_key_def present_values_def map_filter_simps fl)
  have "''adm2'' \<in> set FEATURES" by (simp add: FEATURES_def)
  with r3 have "r (get_feature_scores_key VmafossExecQualityRunner ''adm2'')
                    = (if \<forall>frame \<in> set ?frames. frame ''adm2'' = None then None
                       else Some (present_values py_float ''adm2'' ?frames))"
    by blast
  then have a: "r ''VMAFOSSEXEC_adm2_scores'' = Some [0.9, 0.8]"
    by (simp add: get_feature_scores_key_def present_values_def map_filter_simps fl)
  have "''motion'' \<in> set FEATURES" by (simp add: FEATURES_def)
  with r3 have "r (get_feature_scores_key VmafossExecQualityRunner ''motion'')
                    = (if \<forall>frame \<in> set ?frames. frame ''motion'' = None then None
                       else Some (present_values py_float ''motion'' ?frames))"
    by blast
  then have m: "r ''VMAFOSSEXEC_motion_scores'' = Some [3.5, 4, 2]"
    by (simp add: get_feature_scores_key_def present_values_def map_filter_simps fl)
  have "''vif'' \<in> set FEATURES" by (simp add: FEATURES_def)
  with r3 have "r (get_feature_scores_key VmafossExecQualityRunner ''vif'')
                    = (if \<forall>frame \<in> set ?frames. frame ''vif'' = None then None
                       else Some (present_values py_float ''vif'' ?frames))"
    by blast
  then have v: "r ''VMAFOSSEXEC_vif_scores'' = None"
    by (simp add: get_feature_scores_key_def)
  from r1 s a m v show ?thesis by blast
qed

end
